theory Spec2Isabelle
  imports Main "HOL-Library.Sublist" "HOL-Library.Multiset"
begin

section \<open>Strings\<close>

text \<open>
  A Python \<open>str\<close> is modelled as a HOL \<open>string\<close>; a \<open>char\<close> stands for the code point
  of the same number, so the model covers the text whose code points are below 256.
  \<open>is_space\<close> is \<open>str.isspace\<close> on one such code point, \<open>py_lower\<close> is \<open>str.lower\<close>
  and \<open>strip\<close> is \<open>str.strip()\<close> without arguments.
\<close>

definition is_space :: "char \<Rightarrow> bool" where
  "is_space c =
     (let n = (of_char c :: nat)
      in (9 \<le> n \<and> n \<le> 13) \<or> (28 \<le> n \<and> n \<le> 32) \<or> n = 133 \<or> n = 160)"

text \<open>The lower-case letter is 32 code points above the upper-case one: bit 5 is set.\<close>

definition set_bit5 :: "char \<Rightarrow> char" where
  "set_bit5 c = (case c of Char b0 b1 b2 b3 b4 b5 b6 b7 \<Rightarrow> Char b0 b1 b2 b3 b4 True b6 b7)"

definition py_lower_char :: "char \<Rightarrow> char" where
  "py_lower_char c =
     (let n = (of_char c :: nat)
      in if (65 \<le> n \<and> n \<le> 90) \<or> (192 \<le> n \<and> n \<le> 222 \<and> n \<noteq> 215)
         then set_bit5 c else c)"

definition py_lower :: "string \<Rightarrow> string" where
  "py_lower s = map py_lower_char s"

definition strip :: "string \<Rightarrow> string" where
  "strip s = rev (dropWhile is_space (rev (dropWhile is_space s)))"

section \<open>The tables of models.py\<close>

text \<open>
  Primary keys and foreign keys are Python integers, a \<open>DateTime\<close> is a point on an
  integer time line, and a nullable column that the handlers fill with \<open>None\<close> is an
  \<open>option\<close>. A table is the list of its rows in insertion order.
\<close>

record user =
  u_id :: int
  email :: string
  hashed_password :: string

record consultant =
  c_id :: int
  c_name :: string
  c_email :: string
  specialization :: string
  bio :: string
  c_media_path :: "string option"
  c_media_type :: "string option"

record consultant_post =
  p_id :: int
  p_consultant_id :: int
  title :: "string option"
  content :: string
  p_media_path :: "string option"
  p_media_type :: "string option"
  p_timestamp :: int

record like =
  l_id :: int
  l_user_id :: "int option"
  l_consultant_id :: "int option"
  l_post_id :: int
  l_timestamp :: int

record comment =
  cm_id :: int
  cm_user_id :: "int option"
  cm_consultant_id :: int
  cm_post_id :: int
  comment_text :: string
  cm_timestamp :: int

record follower =
  f_id :: int
  f_user_id :: "int option"
  f_consultant_id :: int
  f_timestamp :: int

text \<open>
  The database session together with the upload directory. The engine is configured
  in the \<open>database\<close> module; a commit is taken to store the rows the handler added,
  as SQLite does with its default settings.
\<close>

record store =
  users :: "user list"
  consultants :: "consultant list"
  posts :: "consultant_post list"
  likes :: "like list"
  comments :: "comment list"
  followers :: "follower list"
  files :: "string set"

definition empty_store :: store where
  "empty_store = \<lparr>users = [], consultants = [], posts = [], likes = [], comments = [],
     followers = [], files = {}\<rparr>"

text \<open>The key the database gives a new row: one more than the largest key in use.\<close>

definition next_id :: "int list \<Rightarrow> int" where
  "next_id ks = (if ks = [] then 1 else Max (set ks) + 1)"

text \<open>
  What a handler can raise: \<open>HTTPException(status_code=403)\<close>,
  \<open>HTTPException(status_code=404)\<close>, the \<open>ValueError\<close> of \<open>register_user\<close>, and the
  \<open>OverflowError\<close> of the SQLite driver when an integer bound to a query does not fit
  the signed 64-bit \<open>INTEGER\<close> of the database.
\<close>

datatype error = Forbidden | NotFound | DuplicateEmail | OverflowError

definition int64 :: "int \<Rightarrow> bool" where
  "int64 n \<longleftrightarrow> - 9223372036854775808 \<le> n \<and> n \<le> 9223372036854775807"

datatype response = RedirectResponse string

section \<open>auth.py\<close>

text \<open>
  \<open>hashlib.sha256(...).hexdigest()\<close> is a parameter \<open>H\<close> of the model: the theorems
  hold for every function in its place.
\<close>

definition hash_password :: "(string \<Rightarrow> string) \<Rightarrow> string \<Rightarrow> string" where
  "hash_password H password = H (strip password)"

definition verify_password :: "(string \<Rightarrow> string) \<Rightarrow> string \<Rightarrow> string \<Rightarrow> bool" where
  "verify_password H plain_password hashed = (hash_password H (strip plain_password) = hashed)"

text \<open>\<open>db.query(User).filter(User.email == e).first()\<close>\<close>

definition user_by_email :: "store \<Rightarrow> string \<Rightarrow> user option" where
  "user_by_email db e = find (\<lambda>u. email u = e) (users db)"

definition register_user ::
  "(string \<Rightarrow> string) \<Rightarrow> store \<Rightarrow> string \<Rightarrow> string \<Rightarrow> store \<times> (error + user)" where
  "register_user H db email0 password0 =
     (let e = py_lower (strip email0);
          password = strip password0
      in case user_by_email db e of
           Some existing_user \<Rightarrow> (db, Inl DuplicateEmail)
         | None \<Rightarrow>
             (let hashed = hash_password H password;
                  new_user = \<lparr>u_id = next_id (map u_id (users db)), email = e,
                              hashed_password = hashed\<rparr>
              in (db\<lparr>users := users db @ [new_user]\<rparr>, Inr new_user)))"

definition login_user :: "(string \<Rightarrow> string) \<Rightarrow> store \<Rightarrow> string \<Rightarrow> string \<Rightarrow> user option" where
  "login_user H db email0 password =
     (case user_by_email db (py_lower (strip email0)) of
        None \<Rightarrow> None
      | Some u \<Rightarrow> if \<not> verify_password H password (hashed_password u) then None else Some u)"

section \<open>app.py: helpers\<close>

text \<open>Python's truth test on a session value (\<open>if not consultant_id\<close>) and on a file name.\<close>

definition falsy_id :: "int option \<Rightarrow> bool" where
  "falsy_id x = (case x of None \<Rightarrow> True | Some n \<Rightarrow> n = 0)"

definition truthy_str :: "string option \<Rightarrow> bool" where
  "truthy_str x = (case x of None \<Rightarrow> False | Some f \<Rightarrow> f \<noteq> [])"

text \<open>\<open>db.query(ConsultantPost).get(post_id)\<close> and \<open>db.query(Consultant).get(consultant_id)\<close>\<close>

definition get_post :: "store \<Rightarrow> int \<Rightarrow> consultant_post option" where
  "get_post db post_id = find (\<lambda>p. p_id p = post_id) (posts db)"

definition get_consultant :: "store \<Rightarrow> int \<Rightarrow> consultant option" where
  "get_consultant db cid = find (\<lambda>c. c_id c = cid) (consultants db)"

text \<open>
  The second component of \<open>os.path.splitext\<close>: the text from the last dot of the last
  path component on, unless only dots precede it there.
\<close>

definition splitext_ext :: "string \<Rightarrow> string" where
  "splitext_ext p =
     (let base = rev (takeWhile (\<lambda>c. c \<noteq> CHR ''/'') (rev p))
      in if CHR ''.'' \<notin> set base then []
         else (let ext = CHR ''.'' # rev (takeWhile (\<lambda>c. c \<noteq> CHR ''.'') (rev base));
                   stem = take (length base - length ext) base
               in if list_ex (\<lambda>c. c \<noteq> CHR ''.'') stem then ext else []))"

definition media_type_of :: "string \<Rightarrow> string" where
  "media_type_of filename =
     (if py_lower (splitext_ext filename) \<in> set [''.mp4'', ''.mov'', ''.avi'', ''.webm'']
      then ''video'' else ''image'')"

text \<open>
  \<open>save_upload\<close> names the file from the clock and a random identifier, so an upload
  is given to a handler as the name \<open>save_upload\<close> stored it under, and \<open>None\<close> when
  the form carried no file; the store records that the file now exists. \<open>os.remove\<close>
  of the old file is \<open>remove_upload\<close>.
\<close>

definition save_upload :: "store \<Rightarrow> string \<Rightarrow> store" where
  "save_upload db fname = db\<lparr>files := insert fname (files db)\<rparr>"

definition remove_upload :: "store \<Rightarrow> string option \<Rightarrow> store" where
  "remove_upload db path = (if truthy_str path then db\<lparr>files := files db - {the path}\<rparr> else db)"

definition media_url_for :: "string \<Rightarrow> string option" where
  "media_url_for filename = (if filename = [] then None else Some (''static/uploads/'' @ filename))"

definition update_post :: "store \<Rightarrow> int \<Rightarrow> (consultant_post \<Rightarrow> consultant_post) \<Rightarrow> store" where
  "update_post db post_id f = db\<lparr>posts := map (\<lambda>p. if p_id p = post_id then f p else p) (posts db)\<rparr>"

section \<open>app.py: posts\<close>

definition consultant_post_submit ::
  "store \<Rightarrow> int \<Rightarrow> int option \<Rightarrow> string \<Rightarrow> string option \<Rightarrow> store \<times> (error + response)" where
  "consultant_post_submit db now consultant_id content0 media =
     (if falsy_id consultant_id then (db, Inr (RedirectResponse ''/consultant-register''))
      else
        (let db1 = (case media of None \<Rightarrow> db | Some fname \<Rightarrow> save_upload db fname);
             media_type = (if truthy_str media then Some (media_type_of (the media)) else None);
             post = \<lparr>p_id = next_id (map p_id (posts db1)), p_consultant_id = the consultant_id,
                     title = None, content = content0, p_media_path = media,
                     p_media_type = media_type, p_timestamp = now\<rparr>
         in (db1\<lparr>posts := posts db1 @ [post]\<rparr>, Inr (RedirectResponse ''/consultant_post''))))"

text \<open>
  \<open>edit_post\<close> and \<open>delete_post\<close> look the post id of the form up as it is; their
  properties below are about posts that exist, whose keys the database has assigned.
\<close>

definition edit_post ::
  "store \<Rightarrow> int \<Rightarrow> int option \<Rightarrow> int \<Rightarrow> string \<Rightarrow> string option \<Rightarrow> store \<times> (error + response)" where
  "edit_post db now consultant_id post_id new_bio new_media =
     (if falsy_id consultant_id then (db, Inr (RedirectResponse ''/consultant-register''))
      else case get_post db post_id of
        None \<Rightarrow> (db, Inl Forbidden)
      | Some post \<Rightarrow>
          if p_consultant_id post \<noteq> the consultant_id then (db, Inl Forbidden)
          else
            (let db1 = (if truthy_str new_media
                        then update_post (save_upload (remove_upload db (p_media_path post)) (the new_media))
                               post_id
                               (\<lambda>p. p\<lparr>p_media_path := new_media,
                                       p_media_type := Some (media_type_of (the new_media))\<rparr>)
                        else db);
                 db2 = update_post db1 post_id (\<lambda>p. p\<lparr>content := new_bio, p_timestamp := now\<rparr>)
             in (db2, Inr (RedirectResponse ''/consultant_post''))))"

text \<open>
  \<open>db.delete(post)\<close> follows the \<open>cascade="all, delete"\<close> of the relationships
  \<open>ConsultantPost.likes\<close> and \<open>ConsultantPost.comments\<close>.
\<close>

definition delete_post :: "store \<Rightarrow> int option \<Rightarrow> int \<Rightarrow> store \<times> (error + response)" where
  "delete_post db consultant_id post_id =
     (if falsy_id consultant_id then (db, Inr (RedirectResponse ''/consultant-register''))
      else case get_post db post_id of
        None \<Rightarrow> (db, Inl Forbidden)
      | Some post \<Rightarrow>
          if p_consultant_id post \<noteq> the consultant_id then (db, Inl Forbidden)
          else
            (let db1 = remove_upload db (p_media_path post);
                 db2 = db1\<lparr>likes := filter (\<lambda>l. l_post_id l \<noteq> p_id post) (likes db1),
                           comments := filter (\<lambda>c. cm_post_id c \<noteq> p_id post) (comments db1),
                           posts := filter (\<lambda>p. p_id p \<noteq> p_id post) (posts db1)\<rparr>
             in (db2, Inr (RedirectResponse ''/consultant_post''))))"

section \<open>app.py: the public feed\<close>

text \<open>
  \<open>column.ilike(pattern)\<close>: SQL \<open>LIKE\<close> on the lower-cased operands, where \<open>%\<close> in the
  pattern stands for any text and \<open>_\<close> for any one character. The database folds the
  case of the letters A to Z.
\<close>

definition sql_lower_char :: "char \<Rightarrow> char" where
  "sql_lower_char c =
     (let n = (of_char c :: nat) in if 65 \<le> n \<and> n \<le> 90 then set_bit5 c else c)"

definition sql_lower :: "string \<Rightarrow> string" where
  "sql_lower s = map sql_lower_char s"

fun like_match :: "string \<Rightarrow> string \<Rightarrow> bool" where
  "like_match [] t = (t = [])"
| "like_match (p # ps) [] = (p = CHR ''%'' \<and> like_match ps [])"
| "like_match (p # ps) (c # cs) =
     (if p = CHR ''%'' then like_match ps (c # cs) \<or> like_match (p # ps) cs
      else (p = CHR ''_'' \<or> p = c) \<and> like_match ps cs)"

definition ilike :: "string \<Rightarrow> string \<Rightarrow> bool" where
  "ilike text0 pattern = like_match (sql_lower pattern) (sql_lower text0)"

record feed_row =
  fr_post :: consultant_post
  fr_consultant :: consultant
  likes_count :: nat
  fr_comments :: "comment list"
  followers_count :: nat
  profile_pic :: "string option"
  media_url :: "string option"

text \<open>\<open>db.query(ConsultantPost).join(Consultant)\<close>: the posts whose consultant row exists.\<close>

definition join_consultant :: "store \<Rightarrow> (consultant_post \<times> consultant) list" where
  "join_consultant db =
     List.map_filter
       (\<lambda>p. case get_consultant db (p_consultant_id p) of None \<Rightarrow> None | Some c \<Rightarrow> Some (p, c))
       (posts db)"

definition spec_filter :: "string option \<Rightarrow> consultant_post \<times> consultant \<Rightarrow> bool" where
  "spec_filter sp pc =
     (if truthy_str sp then ilike (specialization (snd pc)) (''%'' @ the sp @ ''%'') else True)"

definition q_filter :: "string option \<Rightarrow> consultant_post \<times> consultant \<Rightarrow> bool" where
  "q_filter q pc =
     (if truthy_str q
      then (let q_like = ''%'' @ the q @ ''%''
            in ilike (c_name (snd pc)) q_like \<or> ilike (bio (snd pc)) q_like \<or>
               ilike (content (fst pc)) q_like \<or> ilike (specialization (snd pc)) q_like)
      else True)"

text \<open>
  \<open>order_by(ConsultantPost.timestamp.desc())\<close>; rows with equal timestamps keep their
  table order.
\<close>

definition feed_posts :: "store \<Rightarrow> string option \<Rightarrow> string option \<Rightarrow> (consultant_post \<times> consultant) list" where
  "feed_posts db q sp =
     sort_key (\<lambda>pc. - p_timestamp (fst pc))
       (filter (q_filter q) (filter (spec_filter sp) (join_consultant db)))"

definition feed_row_of :: "store \<Rightarrow> consultant_post \<times> consultant \<Rightarrow> feed_row" where
  "feed_row_of db pc =
     (let p = fst pc; c = snd pc
      in \<lparr>fr_post = p, fr_consultant = c,
          likes_count = length (filter (\<lambda>l. l_post_id l = p_id p) (likes db)),
          fr_comments = sort_key cm_timestamp (filter (\<lambda>k. cm_post_id k = p_id p) (comments db)),
          followers_count = length (filter (\<lambda>f. f_consultant_id f = c_id c) (followers db)),
          profile_pic = (if truthy_str (c_media_path c) then media_url_for (the (c_media_path c)) else None),
          media_url = (if truthy_str (p_media_path p) then media_url_for (the (p_media_path p)) else None)\<rparr>)"

definition consultants_page :: "store \<Rightarrow> string option \<Rightarrow> string option \<Rightarrow> feed_row list" where
  "consultants_page db q sp = map (feed_row_of db) (feed_posts db q sp)"

section \<open>app.py: likes, comments, follows\<close>

text \<open>
  \<open>post_id\<close> and \<open>consultant_id\<close> are path parameters of type \<open>int\<close>: any Python integer.
  The first query of each handler binds the parameter, which raises when it is out of
  range, before anything is written. The \<open>user_id\<close> of the session was written at login
  from the key of a user row.
\<close>

definition referer_or_default :: "string option \<Rightarrow> string" where
  "referer_or_default referer = (case referer of None \<Rightarrow> ''/consultants'' | Some r \<Rightarrow> r)"

definition like_post ::
  "store \<Rightarrow> int \<Rightarrow> string option \<Rightarrow> int option \<Rightarrow> int \<Rightarrow> store \<times> (error + response)" where
  "like_post db now referer user_id post_id =
     (if \<not> int64 post_id then (db, Inl OverflowError)
      else case find (\<lambda>l. l_post_id l = post_id \<and> l_user_id l = user_id) (likes db) of
        Some existing \<Rightarrow>
          (db\<lparr>likes := filter (\<lambda>l. l_id l \<noteq> l_id existing) (likes db)\<rparr>,
           Inr (RedirectResponse (referer_or_default referer)))
      | None \<Rightarrow>
          (let lk = \<lparr>l_id = next_id (map l_id (likes db)), l_user_id = user_id,
                     l_consultant_id =
                       (case get_post db post_id of
                          Some p \<Rightarrow> Some (p_consultant_id p) | None \<Rightarrow> None),
                     l_post_id = post_id, l_timestamp = now\<rparr>
           in (db\<lparr>likes := likes db @ [lk]\<rparr>,
               Inr (RedirectResponse (referer_or_default referer)))))"

definition comment_post ::
  "store \<Rightarrow> int \<Rightarrow> string option \<Rightarrow> int option \<Rightarrow> int \<Rightarrow> string \<Rightarrow> store \<times> (error + response)" where
  "comment_post db now referer user_id post_id text0 =
     (if text0 = [] \<or> strip text0 = []
      then (db, Inr (RedirectResponse (referer_or_default referer)))
      else if \<not> int64 post_id then (db, Inl OverflowError)
      else case get_post db post_id of
        None \<Rightarrow> (db, Inl NotFound)
      | Some post \<Rightarrow>
          (let c = \<lparr>cm_id = next_id (map cm_id (comments db)), cm_user_id = user_id,
                    cm_consultant_id = p_consultant_id post, cm_post_id = post_id,
                    comment_text = text0, cm_timestamp = now\<rparr>
           in (db\<lparr>comments := comments db @ [c]\<rparr>,
               Inr (RedirectResponse (referer_or_default referer)))))"

definition follow_consultant ::
  "store \<Rightarrow> int \<Rightarrow> string option \<Rightarrow> int option \<Rightarrow> int \<Rightarrow> store \<times> (error + response)" where
  "follow_consultant db now referer user_id consultant_id =
     (if \<not> int64 consultant_id then (db, Inl OverflowError)
      else case find (\<lambda>f. f_consultant_id f = consultant_id \<and> f_user_id f = user_id) (followers db) of
        Some existing \<Rightarrow>
          (db\<lparr>followers := filter (\<lambda>f. f_id f \<noteq> f_id existing) (followers db)\<rparr>,
           Inr (RedirectResponse (referer_or_default referer)))
      | None \<Rightarrow>
          (let f = \<lparr>f_id = next_id (map f_id (followers db)), f_user_id = user_id,
                    f_consultant_id = consultant_id, f_timestamp = now\<rparr>
           in (db\<lparr>followers := followers db @ [f]\<rparr>,
               Inr (RedirectResponse (referer_or_default referer)))))"

section \<open>Observations used in the properties\<close>

text \<open>
  The like count of a post as the feed computes it, the likes of one (post, actor) pair,
  and the same for followers.
\<close>

definition like_count :: "store \<Rightarrow> int \<Rightarrow> nat" where
  "like_count db post_id = length (filter (\<lambda>l. l_post_id l = post_id) (likes db))"

definition likes_of :: "store \<Rightarrow> int \<Rightarrow> int option \<Rightarrow> like list" where
  "likes_of db post_id user_id =
     filter (\<lambda>l. l_post_id l = post_id \<and> l_user_id l = user_id) (likes db)"

definition liked :: "store \<Rightarrow> int \<Rightarrow> int option \<Rightarrow> bool" where
  "liked db post_id user_id = (likes_of db post_id user_id \<noteq> [])"

definition follower_count :: "store \<Rightarrow> int \<Rightarrow> nat" where
  "follower_count db cid = length (filter (\<lambda>f. f_consultant_id f = cid) (followers db))"

definition follows_of :: "store \<Rightarrow> int \<Rightarrow> int option \<Rightarrow> follower list" where
  "follows_of db cid user_id =
     filter (\<lambda>f. f_consultant_id f = cid \<and> f_user_id f = user_id) (followers db)"

definition following :: "store \<Rightarrow> int \<Rightarrow> int option \<Rightarrow> bool" where
  "following db cid user_id = (follows_of db cid user_id \<noteq> [])"

text \<open>
  The invariant of the two toggle tables: primary keys are unique, and a (post, actor)
  pair has at most one like, a (consultant, actor) pair at most one follower row.
\<close>

definition likes_wf :: "store \<Rightarrow> bool" where
  "likes_wf db \<longleftrightarrow>
     distinct (map l_id (likes db)) \<and> distinct (map (\<lambda>l. (l_post_id l, l_user_id l)) (likes db))"

definition followers_wf :: "store \<Rightarrow> bool" where
  "followers_wf db \<longleftrightarrow>
     distinct (map f_id (followers db)) \<and>
     distinct (map (\<lambda>f. (f_consultant_id f, f_user_id f)) (followers db))"








text \<open>What a successful edit returns, with the two writes to the post row merged.\<close>

definition edited :: "int \<Rightarrow> string \<Rightarrow> string option \<Rightarrow> consultant_post \<Rightarrow> consultant_post" where
  "edited now new_bio new_media =
     (\<lambda>p. if truthy_str new_media
          then p\<lparr>p_media_path := new_media, p_media_type := Some (media_type_of (the new_media)),
                 content := new_bio, p_timestamp := now\<rparr>
          else p\<lparr>content := new_bio, p_timestamp := now\<rparr>)"

text \<open>The store in which the post \<open>post_id\<close> carries the timestamp \<open>t\<close>.\<close>

definition with_timestamp :: "store \<Rightarrow> int \<Rightarrow> int \<Rightarrow> store" where
  "with_timestamp db post_id t = update_post db post_id (\<lambda>p. p\<lparr>p_timestamp := t\<rparr>)"

text \<open>
  A small store: one user, two consultants with one post each, and one like of the user
  on the first post.
\<close>

definition demo_store :: store where
  "demo_store =
     \<lparr>users = [\<lparr>u_id = 1, email = ''ann@example.org'', hashed_password = ''secret''\<rparr>],
      consultants =
        [\<lparr>c_id = 1, c_name = ''Carla'', c_email = ''carla@example.org'',
          specialization = ''Nutrition'', bio = [], c_media_path = None, c_media_type = None\<rparr>,
         \<lparr>c_id = 2, c_name = ''Dan'', c_email = ''dan@example.org'',
          specialization = ''Cardiology'', bio = [], c_media_path = None, c_media_type = None\<rparr>],
      posts =
        [\<lparr>p_id = 1, p_consultant_id = 1, title = None, content = ''Eat more fiber'',
          p_media_path = None, p_media_type = None, p_timestamp = 10\<rparr>,
         \<lparr>p_id = 2, p_consultant_id = 2, title = None, content = ''Walk daily'',
          p_media_path = None, p_media_type = None, p_timestamp = 20\<rparr>],
      likes = [\<lparr>l_id = 1, l_user_id = Some 1, l_consultant_id = Some 1, l_post_id = 1,
                l_timestamp = 11\<rparr>],
      comments = [], followers = [], files = {}\<rparr>"


section \<open>Lists, keys and lookups\<close>

lemma find_append_None:
  "find P xs = None \<Longrightarrow> find P (xs @ ys) = find P ys"
  by (induction xs) (auto split: if_splits)

lemma find_None_iff_set: "find P xs = None \<longleftrightarrow> (\<forall>x\<in>set xs. \<not> P x)"
  by (induction xs) auto

lemma find_None_filter: "find P xs = None \<longleftrightarrow> filter P xs = []"
  by (induction xs) auto

lemma find_Some_in: "find P xs = Some x \<Longrightarrow> x \<in> set xs \<and> P x"
  by (induction xs) (auto split: if_splits)

lemma next_id_fresh: "k \<in> set ks \<Longrightarrow> k < next_id ks"
proof -
  assume k: "k \<in> set ks"
  then have "ks \<noteq> []" by auto
  moreover have "k \<le> Max (set ks)" using k by simp
  ultimately show ?thesis by (simp add: next_id_def)
qed

lemma filter_fresh_key:
  assumes "\<forall>x\<in>set xs. k x \<noteq> n"
  shows "filter (\<lambda>x. k x \<noteq> n) xs = xs"
  using assms by (induction xs) auto

text \<open>Deleting by a unique key removes the one row that carries it.\<close>

lemma filter_key_remove1:
  assumes "distinct (map k xs)" and "x \<in> set xs"
  shows "filter (\<lambda>y. k y \<noteq> k x) xs = remove1 x xs"
  using assms
proof (induction xs)
  case Nil
  then show ?case by simp
next
  case (Cons a xs)
  show ?case
  proof (cases "a = x")
    case True
    with Cons.prems have "k x \<notin> k ` set xs" by simp
    then have "\<forall>y\<in>set xs. k y \<noteq> k x" by (metis imageI)
    then show ?thesis using True by (simp add: filter_fresh_key)
  next
    case False
    with Cons.prems have "x \<in> set xs" and "k a \<noteq> k x" by auto
    with Cons show ?thesis using False by simp
  qed
qed

lemma length_filter_remove1:
  assumes "x \<in> set xs" and "Q x"
  shows "length (filter Q (remove1 x xs)) + 1 = length (filter Q xs)"
  using assms
  by (induction xs) auto

lemma filter_remove1_none:
  assumes "distinct (map g xs)" and "x \<in> set xs"
  shows "filter (\<lambda>y. g y = g x) (remove1 x xs) = []"
  using assms
proof (induction xs)
  case Nil
  then show ?case by simp
next
  case (Cons a xs)
  show ?case
  proof (cases "a = x")
    case True
    with Cons.prems have "g x \<notin> g ` set xs" by simp
    then have "\<forall>y\<in>set xs. g y \<noteq> g x" by (metis imageI)
    then show ?thesis using True by (simp add: filter_empty_conv)
  next
    case False
    with Cons.prems have "x \<in> set xs" and "g a \<noteq> g x" by auto
    with Cons show ?thesis using False by simp
  qed
qed

section \<open>Registration and login\<close>

text \<open>
  C3. When no user carries the normalised email yet, \<open>register_user\<close> succeeds, and
  \<open>login_user\<close> with the same two strings on the resulting store returns the very user
  row that \<open>register_user\<close> created, hence the same id.
\<close>

theorem register_then_login:
  assumes "user_by_email db (py_lower (strip e)) = None"
  shows "\<exists>db' u. register_user H db e p = (db', Inr u) \<and> login_user H db' e p = Some u"
proof -
  let ?e = "py_lower (strip e)"
  let ?u = "\<lparr>u_id = next_id (map u_id (users db)), email = ?e,
             hashed_password = hash_password H (strip p)\<rparr>"
  let ?db' = "db\<lparr>users := users db @ [?u]\<rparr>"
  from assms have reg: "register_user H db e p = (?db', Inr ?u)"
    by (simp add: register_user_def Let_def)
  from assms have "find (\<lambda>u. email u = ?e) (users db) = None"
    by (simp add: user_by_email_def)
  then have "user_by_email ?db' ?e = Some ?u"
    by (simp add: user_by_email_def find_append_None)
  then have "login_user H ?db' e p = Some ?u"
    by (simp add: login_user_def verify_password_def)
  with reg show ?thesis by blast
qed

theorem register_then_login_witness:
  "\<forall>H. user_by_email empty_store (py_lower (strip '' Ann@Example.org '')) = None \<and>
       (\<exists>db' u. register_user H empty_store '' Ann@Example.org '' ''pw '' = (db', Inr u) \<and>
                 login_user H db' '' Ann@Example.org '' ''pw '' = Some u)"
proof
  fix H :: "string \<Rightarrow> string"
  have h: "user_by_email empty_store (py_lower (strip '' Ann@Example.org '')) = None"
    by (simp add: user_by_email_def empty_store_def)
  from h register_then_login [OF h, of H "''pw ''"]
  show "user_by_email empty_store (py_lower (strip '' Ann@Example.org '')) = None \<and>
       (\<exists>db' u. register_user H empty_store '' Ann@Example.org '' ''pw '' = (db', Inr u) \<and>
                 login_user H db' '' Ann@Example.org '' ''pw '' = Some u)"
    by blast
qed

text \<open>
  C4. When some user row already carries the new email as trimmed and lower-cased,
  \<open>register_user\<close> raises the duplicate-email error and the store is the one it was
  given: no user is added.
\<close>

theorem register_duplicate_email:
  assumes "\<exists>u\<in>set (users db). email u = py_lower (strip e)"
  shows "register_user H db e p = (db, Inl DuplicateEmail)"
proof -
  from assms have "user_by_email db (py_lower (strip e)) \<noteq> None"
    by (simp add: user_by_email_def find_None_iff_set)
  then show ?thesis
    by (auto simp: register_user_def Let_def split: option.splits)
qed

theorem register_duplicate_email_witness:
  "\<forall>H. (\<exists>u\<in>set (users demo_store). email u = py_lower (strip ''  ANN@Example.ORG ''))
     \<and> register_user H demo_store ''  ANN@Example.ORG '' ''other'' = (demo_store, Inl DuplicateEmail)"
proof
  fix H :: "string \<Rightarrow> string"
  have h: "\<exists>u\<in>set (users demo_store). email u = py_lower (strip ''  ANN@Example.ORG '')"
    by (simp add: demo_store_def py_lower_def py_lower_char_def set_bit5_def strip_def is_space_def)
  from h register_duplicate_email [OF h, of H "''other''"]
  show "(\<exists>u\<in>set (users demo_store). email u = py_lower (strip ''  ANN@Example.ORG ''))
     \<and> register_user H demo_store ''  ANN@Example.ORG '' ''other'' = (demo_store, Inl DuplicateEmail)"
    by blast
qed

text \<open>
  C5. \<open>login_user\<close> returns \<open>None\<close>, and raises nothing, both when the user found for
  the email fails the password check and when no user is found for the email: the two
  results are the same value.
\<close>

theorem login_mismatch_indistinguishable:
  assumes "user_by_email db (py_lower (strip e1)) = Some u"
    and "\<not> verify_password H p1 (hashed_password u)"
    and "user_by_email db (py_lower (strip e2)) = None"
  shows "login_user H db e1 p1 = None \<and> login_user H db e2 p2 = None \<and>
         login_user H db e1 p1 = login_user H db e2 p2"
  using assms by (simp add: login_user_def)

theorem login_mismatch_indistinguishable_witness:
  "user_by_email demo_store (py_lower (strip ''Ann@example.org'')) = Some (hd (users demo_store)) \<and>
   \<not> verify_password (\<lambda>s. s) ''wrong'' (hashed_password (hd (users demo_store))) \<and>
   user_by_email demo_store (py_lower (strip ''bob@example.org'')) = None \<and>
   login_user (\<lambda>s. s) demo_store ''Ann@example.org'' ''wrong'' = None \<and>
   login_user (\<lambda>s. s) demo_store ''bob@example.org'' ''secret'' = None"
proof -
  have h1: "user_by_email demo_store (py_lower (strip ''Ann@example.org'')) = Some (hd (users demo_store))"
    by (simp add: user_by_email_def demo_store_def py_lower_def py_lower_char_def set_bit5_def
        strip_def is_space_def)
  have h2: "\<not> verify_password (\<lambda>s. s) ''wrong'' (hashed_password (hd (users demo_store)))"
    by (simp add: verify_password_def hash_password_def demo_store_def strip_def is_space_def)
  have h3: "user_by_email demo_store (py_lower (strip ''bob@example.org'')) = None"
    by (simp add: user_by_email_def demo_store_def py_lower_def py_lower_char_def set_bit5_def
        strip_def is_space_def)
  from login_mismatch_indistinguishable [OF h1 h2 h3, of "''secret''"] h1 h2 h3
  show ?thesis by simp
qed

section \<open>Likes and follows\<close>

lemma like_post_add:
  assumes "find (\<lambda>l. l_post_id l = pid \<and> l_user_id l = uid) (likes db) = None"
    and "int64 pid"
  shows "like_post db now r uid pid =
           (db\<lparr>likes := likes db @
                 [\<lparr>l_id = next_id (map l_id (likes db)), l_user_id = uid,
                   l_consultant_id =
                     (case get_post db pid of Some p \<Rightarrow> Some (p_consultant_id p) | None \<Rightarrow> None),
                   l_post_id = pid, l_timestamp = now\<rparr>]\<rparr>,
            Inr (RedirectResponse (referer_or_default r)))"
  using assms by (simp add: like_post_def Let_def)

lemma like_post_remove:
  assumes "find (\<lambda>l. l_post_id l = pid \<and> l_user_id l = uid) (likes db) = Some ex"
    and "distinct (map l_id (likes db))" and "int64 pid"
  shows "fst (like_post db now r uid pid) = db\<lparr>likes := remove1 ex (likes db)\<rparr>"
proof -
  from assms(1) have "ex \<in> set (likes db)" by (simp add: find_Some_in)
  with assms(2) have "filter (\<lambda>l. l_id l \<noteq> l_id ex) (likes db) = remove1 ex (likes db)"
    by (rule filter_key_remove1)
  with assms(1,3) show ?thesis by (simp add: like_post_def)
qed

lemma like_post_step:
  assumes wf: "likes_wf db" and rg: "int64 pid"
  shows "likes_wf (fst (like_post db now r uid pid)) \<and>
         liked (fst (like_post db now r uid pid)) pid uid = (\<not> liked db pid uid) \<and>
         (if liked db pid uid
          then like_count (fst (like_post db now r uid pid)) pid + 1 = like_count db pid
          else like_count (fst (like_post db now r uid pid)) pid = like_count db pid + 1)"
proof -
  let ?P = "\<lambda>l. l_post_id l = pid \<and> l_user_id l = uid"
  let ?g = "\<lambda>l. (l_post_id l, l_user_id l)"
  let ?db1 = "fst (like_post db now r uid pid)"
  from wf have dk: "distinct (map l_id (likes db))" and dg: "distinct (map ?g (likes db))"
    by (simp_all add: likes_wf_def)
  show ?thesis
  proof (cases "find ?P (likes db)")
    case None
    then have nl: "\<not> liked db pid uid"
      by (simp add: liked_def likes_of_def find_None_filter)
    from like_post_add [OF None rg, of now r] obtain lk where l1: "likes ?db1 = likes db @ [lk]"
      and lid: "l_id lk = next_id (map l_id (likes db))"
      and lp: "l_post_id lk = pid" and lu: "l_user_id lk = uid"
      by simp
    have fresh: "l_id lk \<notin> set (map l_id (likes db))"
      using next_id_fresh [of "l_id lk" "map l_id (likes db)"] lid by auto
    from None have "\<forall>l\<in>set (likes db). \<not> ?P l" by (simp add: find_None_iff_set)
    then have "?g lk \<notin> set (map ?g (likes db))" using lp lu by auto
    with fresh dk dg l1 have "likes_wf ?db1" by (simp add: likes_wf_def)
    moreover have "liked ?db1 pid uid" using l1 lp lu by (simp add: liked_def likes_of_def)
    moreover have "like_count ?db1 pid = like_count db pid + 1"
      using l1 lp by (simp add: like_count_def)
    ultimately show ?thesis using nl by simp
  next
    case (Some ex)
    then have exin: "ex \<in> set (likes db)" and exP: "?P ex"
      using find_Some_in [of ?P "likes db" ex] by blast+
    then have lk: "liked db pid uid"
      by (auto simp: liked_def likes_of_def filter_empty_conv)
    have d1: "?db1 = db\<lparr>likes := remove1 ex (likes db)\<rparr>"
      using Some dk rg by (rule like_post_remove)
    have "filter (\<lambda>l. ?g l = ?g ex) (remove1 ex (likes db)) = []"
      using dg exin by (rule filter_remove1_none)
    then have "filter ?P (remove1 ex (likes db)) = []"
      using exP by (simp add: filter_empty_conv)
    then have "\<not> liked ?db1 pid uid" by (simp add: d1 liked_def likes_of_def)
    moreover have "like_count ?db1 pid + 1 = like_count db pid"
      using length_filter_remove1 [of ex "likes db" "\<lambda>l. l_post_id l = pid"] exin exP
      by (simp add: d1 like_count_def)
    moreover have "likes_wf ?db1"
      using Some dk dg rg by (simp add: like_post_def likes_wf_def distinct_map_filter)
    ultimately show ?thesis using lk by simp
  qed
qed

lemma follow_consultant_add:
  assumes "find (\<lambda>f. f_consultant_id f = cid \<and> f_user_id f = uid) (followers db) = None"
    and "int64 cid"
  shows "follow_consultant db now r uid cid =
           (db\<lparr>followers := followers db @
                 [\<lparr>f_id = next_id (map f_id (followers db)), f_user_id = uid,
                   f_consultant_id = cid, f_timestamp = now\<rparr>]\<rparr>,
            Inr (RedirectResponse (referer_or_default r)))"
  using assms by (simp add: follow_consultant_def Let_def)

lemma follow_consultant_remove:
  assumes "find (\<lambda>f. f_consultant_id f = cid \<and> f_user_id f = uid) (followers db) = Some ex"
    and "distinct (map f_id (followers db))" and "int64 cid"
  shows "fst (follow_consultant db now r uid cid) = db\<lparr>followers := remove1 ex (followers db)\<rparr>"
proof -
  from assms(1) have "ex \<in> set (followers db)" by (simp add: find_Some_in)
  with assms(2) have "filter (\<lambda>f. f_id f \<noteq> f_id ex) (followers db) = remove1 ex (followers db)"
    by (rule filter_key_remove1)
  with assms(1,3) show ?thesis by (simp add: follow_consultant_def)
qed

lemma follow_consultant_step:
  assumes wf: "followers_wf db" and rg: "int64 cid"
  shows "followers_wf (fst (follow_consultant db now r uid cid)) \<and>
         following (fst (follow_consultant db now r uid cid)) cid uid = (\<not> following db cid uid) \<and>
         (if following db cid uid
          then follower_count (fst (follow_consultant db now r uid cid)) cid + 1 = follower_count db cid
          else follower_count (fst (follow_consultant db now r uid cid)) cid = follower_count db cid + 1)"
proof -
  let ?P = "\<lambda>f. f_consultant_id f = cid \<and> f_user_id f = uid"
  let ?g = "\<lambda>f. (f_consultant_id f, f_user_id f)"
  let ?db1 = "fst (follow_consultant db now r uid cid)"
  from wf have dk: "distinct (map f_id (followers db))" and dg: "distinct (map ?g (followers db))"
    by (simp_all add: followers_wf_def)
  show ?thesis
  proof (cases "find ?P (followers db)")
    case None
    then have nf: "\<not> following db cid uid"
      by (simp add: following_def follows_of_def find_None_filter)
    from follow_consultant_add [OF None rg, of now r] obtain fw
      where l1: "followers ?db1 = followers db @ [fw]"
        and lid: "f_id fw = next_id (map f_id (followers db))"
        and lc: "f_consultant_id fw = cid" and lu: "f_user_id fw = uid"
      by simp
    have fresh: "f_id fw \<notin> set (map f_id (followers db))"
      using next_id_fresh [of "f_id fw" "map f_id (followers db)"] lid by auto
    from None have "\<forall>f\<in>set (followers db). \<not> ?P f" by (simp add: find_None_iff_set)
    then have "?g fw \<notin> set (map ?g (followers db))" using lc lu by auto
    with fresh dk dg l1 have "followers_wf ?db1" by (simp add: followers_wf_def)
    moreover have "following ?db1 cid uid"
      using l1 lc lu by (simp add: following_def follows_of_def)
    moreover have "follower_count ?db1 cid = follower_count db cid + 1"
      using l1 lc by (simp add: follower_count_def)
    ultimately show ?thesis using nf by simp
  next
    case (Some ex)
    then have exin: "ex \<in> set (followers db)" and exP: "?P ex"
      using find_Some_in [of ?P "followers db" ex] by blast+
    then have fl: "following db cid uid"
      by (auto simp: following_def follows_of_def filter_empty_conv)
    have d1: "?db1 = db\<lparr>followers := remove1 ex (followers db)\<rparr>"
      using Some dk rg by (rule follow_consultant_remove)
    have "filter (\<lambda>f. ?g f = ?g ex) (remove1 ex (followers db)) = []"
      using dg exin by (rule filter_remove1_none)
    then have "filter ?P (remove1 ex (followers db)) = []"
      using exP by (simp add: filter_empty_conv)
    then have "\<not> following ?db1 cid uid" by (simp add: d1 following_def follows_of_def)
    moreover have "follower_count ?db1 cid + 1 = follower_count db cid"
      using length_filter_remove1 [of ex "followers db" "\<lambda>f. f_consultant_id f = cid"] exin exP
      by (simp add: d1 follower_count_def)
    moreover have "followers_wf ?db1"
      using Some dk dg rg by (simp add: follow_consultant_def followers_wf_def distinct_map_filter)
    ultimately show ?thesis using fl by simp
  qed
qed

text \<open>
  C1. On a store that satisfies the invariant of the toggle tables, and for a post id in
  the range of the keys of the database, one call of \<open>like_post\<close> flips whether the
  (post, actor) pair is liked and changes the like count of the post by one, up when the
  pair was not liked and down when it was; a second call right after brings both back to
  what they were. \<open>follow_consultant\<close> does the same for a (consultant, actor) pair and
  the follower count. The actor may be \<open>None\<close>.
\<close>

theorem toggle_twice_restores:
  assumes "likes_wf db" and "followers_wf db" and "int64 pid" and "int64 cid"
  shows "(liked (fst (like_post db t1 r1 uid pid)) pid uid = (\<not> liked db pid uid) \<and>
          (if liked db pid uid
           then like_count (fst (like_post db t1 r1 uid pid)) pid + 1 = like_count db pid
           else like_count (fst (like_post db t1 r1 uid pid)) pid = like_count db pid + 1) \<and>
          liked (fst (like_post (fst (like_post db t1 r1 uid pid)) t2 r2 uid pid)) pid uid
            = liked db pid uid \<and>
          like_count (fst (like_post (fst (like_post db t1 r1 uid pid)) t2 r2 uid pid)) pid
            = like_count db pid) \<and>
         (following (fst (follow_consultant db t1 r1 uid cid)) cid uid = (\<not> following db cid uid) \<and>
          (if following db cid uid
           then follower_count (fst (follow_consultant db t1 r1 uid cid)) cid + 1 = follower_count db cid
           else follower_count (fst (follow_consultant db t1 r1 uid cid)) cid = follower_count db cid + 1) \<and>
          following (fst (follow_consultant (fst (follow_consultant db t1 r1 uid cid)) t2 r2 uid cid)) cid uid
            = following db cid uid \<and>
          follower_count (fst (follow_consultant (fst (follow_consultant db t1 r1 uid cid)) t2 r2 uid cid)) cid
            = follower_count db cid)"
proof -
  let ?l1 = "fst (like_post db t1 r1 uid pid)"
  let ?f1 = "fst (follow_consultant db t1 r1 uid cid)"
  note a = like_post_step [OF assms(1,3), of t1 r1 uid]
  then have "likes_wf ?l1" by simp
  note b = like_post_step [OF this assms(3), of t2 r2 uid]
  note c = follow_consultant_step [OF assms(2,4), of t1 r1 uid]
  then have "followers_wf ?f1" by simp
  note d = follow_consultant_step [OF this assms(4), of t2 r2 uid]
  have like: "liked ?l1 pid uid = (\<not> liked db pid uid) \<and>
          (if liked db pid uid then like_count ?l1 pid + 1 = like_count db pid
           else like_count ?l1 pid = like_count db pid + 1) \<and>
          liked (fst (like_post ?l1 t2 r2 uid pid)) pid uid = liked db pid uid \<and>
          like_count (fst (like_post ?l1 t2 r2 uid pid)) pid = like_count db pid"
    using a b by (auto split: if_splits)
  have follow: "following ?f1 cid uid = (\<not> following db cid uid) \<and>
          (if following db cid uid then follower_count ?f1 cid + 1 = follower_count db cid
           else follower_count ?f1 cid = follower_count db cid + 1) \<and>
          following (fst (follow_consultant ?f1 t2 r2 uid cid)) cid uid = following db cid uid \<and>
          follower_count (fst (follow_consultant ?f1 t2 r2 uid cid)) cid = follower_count db cid"
    using c d by (auto split: if_splits)
  from like follow show ?thesis by blast
qed

theorem toggle_twice_restores_witness:
  "likes_wf demo_store \<and> followers_wf demo_store \<and> int64 1 \<and> int64 2 \<and>
   like_count demo_store 1 = 1 \<and>
   like_count (fst (like_post demo_store 30 None (Some 1) 1)) 1 = 0 \<and>
   like_count (fst (like_post (fst (like_post demo_store 30 None (Some 1) 1)) 31 None (Some 1) 1)) 1 = 1 \<and>
   follower_count demo_store 2 = 0 \<and>
   follower_count (fst (follow_consultant demo_store 30 None (Some 1) 2)) 2 = 1 \<and>
   follower_count (fst (follow_consultant (fst (follow_consultant demo_store 30 None (Some 1) 2)) 31 None (Some 1) 2)) 2 = 0"
proof -
  have h1: "likes_wf demo_store" by (simp add: likes_wf_def demo_store_def)
  have h2: "followers_wf demo_store" by (simp add: followers_wf_def demo_store_def)
  have c: "like_count demo_store 1 = 1" "liked demo_store 1 (Some 1)"
    "follower_count demo_store 2 = 0" "\<not> following demo_store 2 (Some 1)"
    by (simp_all add: like_count_def liked_def likes_of_def follower_count_def following_def
        follows_of_def demo_store_def)
  have h3: "int64 1" and h4: "int64 2" by (simp_all add: int64_def)
  from toggle_twice_restores [OF h1 h2 h3 h4, of 30 None "Some 1" 31 None] h1 h2 h3 h4 c
  show ?thesis by simp
qed

text \<open>
  C2, as stated, fails: for the post id 99, which no post carries, and an anonymous
  actor without a like on it, \<open>like_post\<close> answers with the redirect and stores a like
  whose consultant reference is \<open>None\<close>.
\<close>

theorem like_missing_post_counterexample:
  "get_post demo_store 99 = None \<and> \<not> liked demo_store 99 None \<and>
   snd (like_post demo_store 30 None None 99) = Inr (RedirectResponse ''/consultants'') \<and>
   likes (fst (like_post demo_store 30 None None 99)) =
     likes demo_store @
       [\<lparr>l_id = 2, l_user_id = None, l_consultant_id = None, l_post_id = 99, l_timestamp = 30\<rparr>]"
  by (simp add: get_post_def liked_def likes_of_def like_post_def int64_def demo_store_def
      next_id_def referer_or_default_def)

text \<open>
  C2, amended. \<open>like_post\<close> never raises the 404 error. For a post id outside the range
  of the keys of the database it raises \<open>OverflowError\<close> and the store is as it was. For
  a post id in that range it answers with the redirect, and when the (post, actor) pair
  has no like it appends one like for that pair, whose consultant reference is the owning
  consultant of the post when the post exists and \<open>None\<close> when it does not.
\<close>

theorem like_post_creates:
  "snd (like_post db now r uid pid) \<noteq> Inl NotFound \<and>
   (\<not> int64 pid \<longrightarrow> like_post db now r uid pid = (db, Inl OverflowError)) \<and>
   (int64 pid \<longrightarrow> snd (like_post db now r uid pid) = Inr (RedirectResponse (referer_or_default r))) \<and>
   (int64 pid \<and> \<not> liked db pid uid \<longrightarrow>
      (\<exists>lk. fst (like_post db now r uid pid) = db\<lparr>likes := likes db @ [lk]\<rparr> \<and>
            l_post_id lk = pid \<and> l_user_id lk = uid \<and>
            l_consultant_id lk =
              (case get_post db pid of None \<Rightarrow> None | Some p \<Rightarrow> Some (p_consultant_id p))))"
proof -
  have ov: "\<not> int64 pid \<longrightarrow> like_post db now r uid pid = (db, Inl OverflowError)"
    by (simp add: like_post_def)
  have ok: "int64 pid \<longrightarrow>
      snd (like_post db now r uid pid) = Inr (RedirectResponse (referer_or_default r))"
    by (simp add: like_post_def Let_def split: option.splits)
  from ov ok have nf: "snd (like_post db now r uid pid) \<noteq> Inl NotFound"
    by (cases "int64 pid") simp_all
  { assume rg: "int64 pid" and "\<not> liked db pid uid"
    then have none: "find (\<lambda>l. l_post_id l = pid \<and> l_user_id l = uid) (likes db) = None"
      by (simp add: liked_def likes_of_def find_None_filter)
    let ?lk = "\<lparr>l_id = next_id (map l_id (likes db)), l_user_id = uid,
                l_consultant_id =
                  (case get_post db pid of Some p \<Rightarrow> Some (p_consultant_id p) | None \<Rightarrow> None),
                l_post_id = pid, l_timestamp = now\<rparr>"
    from like_post_add [OF none rg, of now r]
    have "fst (like_post db now r uid pid) = db\<lparr>likes := likes db @ [?lk]\<rparr>"
      by simp
    then have "\<exists>lk. fst (like_post db now r uid pid) = db\<lparr>likes := likes db @ [lk]\<rparr> \<and>
            l_post_id lk = pid \<and> l_user_id lk = uid \<and>
            l_consultant_id lk =
              (case get_post db pid of None \<Rightarrow> None | Some p \<Rightarrow> Some (p_consultant_id p))"
      by (intro exI [of _ ?lk]) simp }
  with nf ov ok show ?thesis by blast
qed

theorem like_post_creates_witness:
  "int64 2 \<and> \<not> int64 9223372036854775808 \<and>
   \<not> liked demo_store 2 (Some 1) \<and> get_post demo_store 2 = Some (posts demo_store ! 1) \<and>
   (\<exists>lk. fst (like_post demo_store 30 None (Some 1) 2) = demo_store\<lparr>likes := likes demo_store @ [lk]\<rparr> \<and>
         l_consultant_id lk = Some 2) \<and>
   like_post demo_store 30 None (Some 1) 9223372036854775808 = (demo_store, Inl OverflowError)"
proof -
  have h: "\<not> liked demo_store 2 (Some 1)"
    by (simp add: liked_def likes_of_def demo_store_def)
  have g: "get_post demo_store 2 = Some (posts demo_store ! 1)"
    by (simp add: get_post_def demo_store_def)
  have c: "p_consultant_id (posts demo_store ! 1) = 2" by (simp add: demo_store_def)
  have r1: "int64 2" and r2: "\<not> int64 9223372036854775808" by (simp_all add: int64_def)
  from like_post_creates [of demo_store 30 None "Some 1" 2]
    like_post_creates [of demo_store 30 None "Some 1" 9223372036854775808] h g c r1 r2
  show ?thesis by auto
qed

section \<open>Ownership of posts\<close>

text \<open>
  C6. For an existing post and a session consultant id that is not the id of its owner,
  \<open>edit_post\<close> and \<open>delete_post\<close> raise the 403 error and leave the whole store as it
  was: the post row, its likes and its comments are those of before. (A session value
  0 counts as no session in Python's truth test; no row has the key 0.)
\<close>

theorem not_owner_forbidden:
  assumes "get_post db pid = Some post" and "cid \<noteq> 0" and "cid \<noteq> p_consultant_id post"
  shows "edit_post db now (Some cid) pid new_bio new_media = (db, Inl Forbidden) \<and>
         delete_post db (Some cid) pid = (db, Inl Forbidden)"
  using assms by (simp add: edit_post_def delete_post_def falsy_id_def)

theorem not_owner_forbidden_witness:
  "get_post demo_store 1 = Some (hd (posts demo_store)) \<and> (2::int) \<noteq> 0 \<and>
   2 \<noteq> p_consultant_id (hd (posts demo_store)) \<and>
   edit_post demo_store 30 (Some 2) 1 ''Eat less'' None = (demo_store, Inl Forbidden) \<and>
   delete_post demo_store (Some 2) 1 = (demo_store, Inl Forbidden)"
proof -
  have h1: "get_post demo_store 1 = Some (hd (posts demo_store))"
    by (simp add: get_post_def demo_store_def)
  have h2: "(2::int) \<noteq> 0" by simp
  have h3: "2 \<noteq> p_consultant_id (hd (posts demo_store))" by (simp add: demo_store_def)
  from not_owner_forbidden [OF h1 h2 h3, of 30 "''Eat less''" None] h1 h2 h3
  show ?thesis by blast
qed

section \<open>Comments\<close>

text \<open>
  C8, as stated, fails: for a text that is not blank and the post id \<open>2^63\<close>, which no
  post carries, \<open>comment_post\<close> raises \<open>OverflowError\<close>, not the 404 error.
\<close>

theorem comment_overflow_counterexample:
  "strip ''Great tip!'' \<noteq> [] \<and> get_post demo_store 9223372036854775808 = None \<and>
   comment_post demo_store 30 None (Some 1) 9223372036854775808 ''Great tip!'' =
     (demo_store, Inl OverflowError)"
  by (simp add: comment_post_def int64_def get_post_def demo_store_def strip_def is_space_def)

text \<open>
  C8, amended. \<open>comment_post\<close> with an empty or whitespace-only text answers with the
  redirect and leaves the store as it was. With any other text: for a post id outside
  the range of the keys of the database it raises \<open>OverflowError\<close>; for a post id in
  that range it raises the 404 error when the post does not exist, and otherwise appends
  exactly one comment, which carries the owning consultant of the post, the post id, the
  actor and the text as given. The store is as it was whenever an error is raised.
\<close>

theorem comment_post_cases:
  "(text0 = [] \<or> strip text0 = [] \<longrightarrow>
      comment_post db now r uid pid text0 = (db, Inr (RedirectResponse (referer_or_default r)))) \<and>
   (text0 \<noteq> [] \<and> strip text0 \<noteq> [] \<and> \<not> int64 pid \<longrightarrow>
      comment_post db now r uid pid text0 = (db, Inl OverflowError)) \<and>
   (text0 \<noteq> [] \<and> strip text0 \<noteq> [] \<and> int64 pid \<and> get_post db pid = None \<longrightarrow>
      comment_post db now r uid pid text0 = (db, Inl NotFound)) \<and>
   (\<forall>post. text0 \<noteq> [] \<and> strip text0 \<noteq> [] \<and> int64 pid \<and> get_post db pid = Some post \<longrightarrow>
      (\<exists>c. comment_post db now r uid pid text0 =
              (db\<lparr>comments := comments db @ [c]\<rparr>, Inr (RedirectResponse (referer_or_default r))) \<and>
            cm_consultant_id c = p_consultant_id post \<and> cm_post_id c = pid \<and>
            cm_user_id c = uid \<and> comment_text c = text0))"
proof (intro conjI allI impI)
  assume "text0 = [] \<or> strip text0 = []"
  then show "comment_post db now r uid pid text0 = (db, Inr (RedirectResponse (referer_or_default r)))"
    by (simp add: comment_post_def)
next
  assume "text0 \<noteq> [] \<and> strip text0 \<noteq> [] \<and> \<not> int64 pid"
  then show "comment_post db now r uid pid text0 = (db, Inl OverflowError)"
    by (simp add: comment_post_def)
next
  assume "text0 \<noteq> [] \<and> strip text0 \<noteq> [] \<and> int64 pid \<and> get_post db pid = None"
  then show "comment_post db now r uid pid text0 = (db, Inl NotFound)"
    by (simp add: comment_post_def)
next
  fix post
  assume a: "text0 \<noteq> [] \<and> strip text0 \<noteq> [] \<and> int64 pid \<and> get_post db pid = Some post"
  let ?c = "\<lparr>cm_id = next_id (map cm_id (comments db)), cm_user_id = uid,
             cm_consultant_id = p_consultant_id post, cm_post_id = pid,
             comment_text = text0, cm_timestamp = now\<rparr>"
  from a have "comment_post db now r uid pid text0 =
      (db\<lparr>comments := comments db @ [?c]\<rparr>, Inr (RedirectResponse (referer_or_default r)))"
    by (simp add: comment_post_def Let_def)
  then show "\<exists>c. comment_post db now r uid pid text0 =
              (db\<lparr>comments := comments db @ [c]\<rparr>, Inr (RedirectResponse (referer_or_default r))) \<and>
            cm_consultant_id c = p_consultant_id post \<and> cm_post_id c = pid \<and>
            cm_user_id c = uid \<and> comment_text c = text0"
    by (intro exI [of _ ?c]) simp
qed

theorem comment_post_cases_witness:
  "strip ''  '' = [] \<and>
   comment_post demo_store 30 None (Some 1) 1 ''  '' = (demo_store, Inr (RedirectResponse ''/consultants'')) \<and>
   comment_post demo_store 30 None (Some 1) 99 ''Great tip!'' = (demo_store, Inl NotFound) \<and>
   comment_post demo_store 30 None (Some 1) (- 9223372036854775809) ''Great tip!'' =
     (demo_store, Inl OverflowError) \<and>
   (\<exists>c. comment_post demo_store 30 None (Some 1) 1 ''Great tip!'' =
           (demo_store\<lparr>comments := comments demo_store @ [c]\<rparr>, Inr (RedirectResponse ''/consultants'')) \<and>
         cm_consultant_id c = 1 \<and> comment_text c = ''Great tip!'')"
proof -
  have s1: "strip ''  '' = []" and s2: "strip ''Great tip!'' \<noteq> []"
    by (simp_all add: strip_def is_space_def)
  have g1: "get_post demo_store 99 = None"
    and g2: "get_post demo_store 1 = Some (hd (posts demo_store))"
    and c: "p_consultant_id (hd (posts demo_store)) = 1"
    by (simp_all add: get_post_def demo_store_def)
  have r: "int64 1" "int64 99" "\<not> int64 (- 9223372036854775809)"
    by (simp_all add: int64_def)
  from comment_post_cases [of "''  ''" demo_store 30 None "Some 1" 1]
    comment_post_cases [of "''Great tip!''" demo_store 30 None "Some 1" 99]
    comment_post_cases [of "''Great tip!''" demo_store 30 None "Some 1" "- 9223372036854775809"]
    comment_post_cases [of "''Great tip!''" demo_store 30 None "Some 1" 1]
    s1 s2 g1 g2 c r
  show ?thesis by (auto simp: referer_or_default_def)
qed

text \<open>
  C9. The text is tested before the post is looked up: a whitespace-only text is dropped
  with the redirect whether or not the post exists, and the 404 error is raised only for
  a text that is not blank (and a post that does not exist).
\<close>

theorem blank_comment_before_lookup:
  "(strip text0 = [] \<longrightarrow>
      comment_post db now r uid pid text0 = (db, Inr (RedirectResponse (referer_or_default r)))) \<and>
   (snd (comment_post db now r uid pid text0) = Inl NotFound \<longrightarrow>
      text0 \<noteq> [] \<and> strip text0 \<noteq> [] \<and> get_post db pid = None)"
  by (auto simp: comment_post_def Let_def split: option.splits if_splits)

theorem blank_comment_before_lookup_witness:
  "strip '' '' = [] \<and> get_post demo_store 99 = None \<and>
   comment_post demo_store 30 None None 99 '' '' = (demo_store, Inr (RedirectResponse ''/consultants'')) \<and>
   snd (comment_post demo_store 30 None None 99 ''x'') = Inl NotFound \<and> strip ''x'' \<noteq> []"
proof -
  have s1: "strip '' '' = []" by (simp add: strip_def is_space_def)
  have g1: "get_post demo_store 99 = None" by (simp add: get_post_def demo_store_def)
  have n: "snd (comment_post demo_store 30 None None 99 ''x'') = Inl NotFound"
    by (simp add: comment_post_def g1 int64_def strip_def is_space_def)
  from blank_comment_before_lookup [of "'' ''" demo_store 30 None None 99]
    blank_comment_before_lookup [of "''x''" demo_store 30 None None 99] s1 g1 n
  show ?thesis by (simp add: referer_or_default_def)
qed

section \<open>The feed\<close>









lemma fr_post_feed_row_of: "fr_post (feed_row_of db pc) = fst pc"
  by (simp add: feed_row_of_def Let_def)

lemma map_fr_post_page: "map fr_post (consultants_page db q sp) = map fst (feed_posts db q sp)"
  by (simp add: consultants_page_def fr_post_feed_row_of cong: map_cong)








section \<open>Editing a post\<close>

lemma hd_sort_key_least:
  fixes f :: "'a \<Rightarrow> int"
  assumes "x \<in> set xs" and "\<forall>y\<in>set xs. y \<noteq> x \<longrightarrow> f x < f y"
  shows "hd (sort_key f xs) = x"
proof (rule ccontr)
  let ?ys = "sort_key f xs"
  assume neq: "hd ?ys \<noteq> x"
  from assms(1) have ne: "?ys \<noteq> []" by (metis empty_iff empty_set set_sort)
  then obtain y ys where ys: "?ys = y # ys" by (cases ?ys) auto
  have "y \<in> set xs" by (metis list.set_intros(1) set_sort ys)
  with assms(2) neq ys have lt: "f x < f y" by simp
  have "x \<in> set ?ys" using assms(1) by simp
  with ys neq have "x \<in> set ys" by simp
  moreover have "sorted (map f (y # ys))" by (metis sorted_sort_key ys)
  ultimately have "f y \<le> f x" by auto
  with lt show False by simp
qed

lemma join_consultant_in:
  "(p, c) \<in> set (join_consultant db) \<Longrightarrow>
     p \<in> set (posts db) \<and> get_consultant db (p_consultant_id p) = Some c"
  by (auto simp: join_consultant_def List.map_filter_def split: option.splits)

lemma feed_posts_in:
  "(p, c) \<in> set (feed_posts db q sp) \<Longrightarrow>
     p \<in> set (posts db) \<and> get_consultant db (p_consultant_id p) = Some c"
  using join_consultant_in [of p c db] by (simp add: feed_posts_def)

lemma get_post_update_post:
  assumes "\<And>p. p_id (f p) = p_id p"
  shows "get_post (update_post db pid f) pid = map_option f (get_post db pid)"
proof -
  have "find (\<lambda>p. p_id p = pid) (map (\<lambda>p. if p_id p = pid then f p else p) ps) =
          map_option f (find (\<lambda>p. p_id p = pid) ps)" for ps
    by (induction ps) (auto simp: assms)
  then show ?thesis by (simp add: get_post_def update_post_def)
qed

lemma update_post_twice:
  assumes "\<And>p. p_id (f p) = p_id p"
  shows "update_post (update_post db pid f) pid g = update_post db pid (\<lambda>p. g (f p))"
  by (simp add: update_post_def assms comp_def cong: if_cong)


lemma update_post_files:
  "save_upload (update_post db pid f) n = update_post (save_upload db n) pid f"
  "remove_upload (update_post db pid f) path = update_post (remove_upload db path) pid f"
  by (simp_all add: update_post_def save_upload_def remove_upload_def)

lemma edit_post_success:
  assumes "get_post db pid = Some post" and "cid \<noteq> 0" and "p_consultant_id post = cid"
  shows "edit_post db now (Some cid) pid new_bio new_media =
           (update_post
              (if truthy_str new_media
               then save_upload (remove_upload db (p_media_path post)) (the new_media) else db)
              pid (edited now new_bio new_media),
            Inr (RedirectResponse ''/consultant_post''))"
  using assms
  by (simp add: edit_post_def falsy_id_def Let_def edited_def update_post_twice)


lemma edited_fields:
  "p_id (edited now nb nm p) = p_id p" "p_timestamp (edited now nb nm p) = now"
  "content (edited now nb nm p) = nb" "p_consultant_id (edited now nb nm p) = p_consultant_id p"
  "edited now nb nm (p\<lparr>p_timestamp := t\<rparr>) = edited now nb nm p"
  by (simp_all add: edited_def)

lemma edit_post_front:
  assumes g: "get_post db pid = Some post"
    and d: "distinct (map p_id (posts db))"
    and lt: "\<forall>p\<in>set (posts db). p_id p \<noteq> pid \<longrightarrow> p_timestamp p < now"
    and db': "posts db' = map (\<lambda>p. if p_id p = pid then edited now nb nm p else p) (posts db)"
    and m: "edited now nb nm post \<in> set (map fr_post (consultants_page db' q sp))"
  shows "fr_post (hd (consultants_page db' q sp)) = edited now nb nm post"
proof -
  let ?e = "edited now nb nm post"
  let ?xs = "filter (q_filter q) (filter (spec_filter sp) (join_consultant db'))"
  let ?k = "\<lambda>pc :: consultant_post \<times> consultant. - p_timestamp (fst pc)"
  from g have pin: "post \<in> set (posts db)" and pid: "p_id post = pid"
    using find_Some_in [of "\<lambda>p. p_id p = pid" "posts db" post] by (simp_all add: get_post_def)
  from m obtain c0 where c0: "(?e, c0) \<in> set (feed_posts db' q sp)"
    by (auto simp: map_fr_post_page)
  then have c0x: "(?e, c0) \<in> set ?xs" by (simp add: feed_posts_def)
  have "\<forall>y\<in>set ?xs. y \<noteq> (?e, c0) \<longrightarrow> ?k (?e, c0) < ?k y"
  proof (intro ballI impI)
    fix y assume y: "y \<in> set ?xs" and ne: "y \<noteq> (?e, c0)"
    obtain p c where pc: "y = (p, c)" by (cases y)
    from y pc have "(p, c) \<in> set (feed_posts db' q sp)" by (simp add: feed_posts_def)
    then have p': "p \<in> set (posts db')" and gc: "get_consultant db' (p_consultant_id p) = Some c"
      using feed_posts_in [of p c db' q sp] by simp_all
    from c0 have gc0: "get_consultant db' (p_consultant_id ?e) = Some c0"
      using feed_posts_in [of ?e c0 db' q sp] by simp
    from p' db' obtain p0 where p0: "p0 \<in> set (posts db)"
      and pp: "p = (if p_id p0 = pid then edited now nb nm p0 else p0)" by auto
    show "?k (?e, c0) < ?k y"
    proof (cases "p_id p0 = pid")
      case True
      with d pin pid p0 have "p0 = post"
        by (metis distinct_map inj_onD)
      with pp True have "p = ?e" by simp
      with gc gc0 have "c = c0" by simp
      with \<open>p = ?e\<close> pc ne show ?thesis by simp
    next
      case False
      with pp have "p = p0" by simp
      with lt p0 False have "p_timestamp p < now" by simp
      then show ?thesis by (simp add: pc edited_fields)
    qed
  qed
  with c0x have "hd (sort_key ?k ?xs) = (?e, c0)" by (rule hd_sort_key_least)
  then have h: "hd (feed_posts db' q sp) = (?e, c0)" by (simp add: feed_posts_def)
  from c0 have "feed_posts db' q sp \<noteq> []" by auto
  then have "fr_post (hd (consultants_page db' q sp)) = fst (hd (feed_posts db' q sp))"
    by (simp add: consultants_page_def hd_map fr_post_feed_row_of)
  with h show ?thesis by simp
qed


text \<open>
  C10. A successful \<open>edit_post\<close> leaves the post with the timestamp \<open>now\<close> of the edit
  and the new content, with or without a new media file. When the edit is later than
  the timestamps of all other posts, the edited post is the first row of every feed it
  appears in. The result does not depend on the timestamp the post had before: the same
  store comes out whatever that timestamp \<open>t\<close> was, so nothing keeps the time of creation.
\<close>

theorem edit_post_resets_timestamp:
  assumes g: "get_post db pid = Some post" and c0: "cid \<noteq> 0" and own: "p_consultant_id post = cid"
  shows "\<exists>db' post'.
           edit_post db now (Some cid) pid new_bio new_media =
             (db', Inr (RedirectResponse ''/consultant_post'')) \<and>
           get_post db' pid = Some post' \<and> p_timestamp post' = now \<and> content post' = new_bio \<and>
           (distinct (map p_id (posts db)) \<and>
            (\<forall>p\<in>set (posts db). p_id p \<noteq> pid \<longrightarrow> p_timestamp p < now) \<and>
            post' \<in> set (map fr_post (consultants_page db' q sp))
            \<longrightarrow> fr_post (hd (consultants_page db' q sp)) = post') \<and>
           edit_post (with_timestamp db pid t) now (Some cid) pid new_bio new_media =
             (db', Inr (RedirectResponse ''/consultant_post''))"
proof -
  let ?base = "if truthy_str new_media
               then save_upload (remove_upload db (p_media_path post)) (the new_media) else db"
  let ?db' = "update_post ?base pid (edited now new_bio new_media)"
  let ?post' = "edited now new_bio new_media post"
  have r: "edit_post db now (Some cid) pid new_bio new_media =
             (?db', Inr (RedirectResponse ''/consultant_post''))"
    using g c0 own by (rule edit_post_success)
  have pb: "posts ?base = posts db"
    by (simp add: save_upload_def remove_upload_def)
  then have gb: "get_post ?base pid = Some post"
    using g by (simp add: get_post_def)
  have gp: "get_post ?db' pid = Some ?post'"
    using gb by (simp add: get_post_update_post edited_fields)
  have ps: "posts ?db' =
      map (\<lambda>p. if p_id p = pid then edited now new_bio new_media p else p) (posts db)"
    using pb by (simp add: update_post_def)
  have front: "distinct (map p_id (posts db)) \<and>
            (\<forall>p\<in>set (posts db). p_id p \<noteq> pid \<longrightarrow> p_timestamp p < now) \<and>
            ?post' \<in> set (map fr_post (consultants_page ?db' q sp))
            \<longrightarrow> fr_post (hd (consultants_page ?db' q sp)) = ?post'"
    using edit_post_front [OF g _ _ ps] by blast
  have gt: "get_post (with_timestamp db pid t) pid = Some (post\<lparr>p_timestamp := t\<rparr>)"
    using g by (simp add: with_timestamp_def get_post_update_post)
  have "edit_post (with_timestamp db pid t) now (Some cid) pid new_bio new_media =
          (update_post
             (if truthy_str new_media
              then save_upload (remove_upload (with_timestamp db pid t) (p_media_path post))
                     (the new_media)
              else with_timestamp db pid t)
             pid (edited now new_bio new_media),
           Inr (RedirectResponse ''/consultant_post''))"
    using edit_post_success [OF gt c0, of now new_bio new_media] own by simp
  also have "\<dots> = (?db', Inr (RedirectResponse ''/consultant_post''))"
    by (simp add: with_timestamp_def update_post_files update_post_twice edited_fields)
  finally have indep: "edit_post (with_timestamp db pid t) now (Some cid) pid new_bio new_media =
      (?db', Inr (RedirectResponse ''/consultant_post''))" .
  from r gp front indep show ?thesis
    by (intro exI [of _ ?db'] exI [of _ ?post']) (simp add: edited_fields)
qed


theorem edit_post_resets_timestamp_witness:
  "get_post demo_store 1 = Some (hd (posts demo_store)) \<and> (1::int) \<noteq> 0 \<and>
   p_consultant_id (hd (posts demo_store)) = 1 \<and>
   distinct (map p_id (posts demo_store)) \<and>
   map p_timestamp (posts demo_store) = [10, 20] \<and>
   map (\<lambda>r. p_id (fr_post r)) (consultants_page demo_store None None) = [2, 1] \<and>
   (\<exists>db' post'.
      edit_post demo_store 30 (Some 1) 1 ''Eat less'' None =
        (db', Inr (RedirectResponse ''/consultant_post'')) \<and>
      get_post db' 1 = Some post' \<and> p_timestamp post' = 30 \<and>
      fr_post (hd (consultants_page db' None None)) = post' \<and>
      edit_post (with_timestamp demo_store 1 5) 30 (Some 1) 1 ''Eat less'' None =
        (db', Inr (RedirectResponse ''/consultant_post'')))"
proof -
  let ?p = "\<lparr>p_id = 1, p_consultant_id = 1, title = None, content = ''Eat less'',
             p_media_path = None, p_media_type = None, p_timestamp = 30\<rparr>"
  have h1: "get_post demo_store 1 = Some (hd (posts demo_store))"
    by (simp add: get_post_def demo_store_def)
  have h2: "(1::int) \<noteq> 0" by simp
  have h3: "p_consultant_id (hd (posts demo_store)) = 1" by (simp add: demo_store_def)
  have h4: "distinct (map p_id (posts demo_store))" by (simp add: demo_store_def)
  have h5: "\<forall>p\<in>set (posts demo_store). p_id p \<noteq> 1 \<longrightarrow> p_timestamp p < 30"
    by (simp add: demo_store_def)
  have before: "map (\<lambda>r. p_id (fr_post r)) (consultants_page demo_store None None) = [2, 1]"
    by (simp add: consultants_page_def feed_posts_def join_consultant_def get_consultant_def
        spec_filter_def q_filter_def truthy_str_def feed_row_of_def demo_store_def
        List.map_filter_simps)
  have e: "fst (edit_post demo_store 30 (Some 1) 1 ''Eat less'' None) =
             demo_store\<lparr>posts := [?p, posts demo_store ! 1]\<rparr>"
    by (simp add: edit_post_def falsy_id_def get_post_def truthy_str_def update_post_def
        demo_store_def)
  have m: "?p \<in> set (map fr_post (consultants_page (demo_store\<lparr>posts := [?p, posts demo_store ! 1]\<rparr>) None None))"
    by (simp add: consultants_page_def feed_posts_def join_consultant_def get_consultant_def
        spec_filter_def q_filter_def truthy_str_def feed_row_of_def demo_store_def
        List.map_filter_simps)
  from edit_post_resets_timestamp [OF h1 h2 h3, of 30 "''Eat less''" None None None 5]
  obtain db' post' where
    r: "edit_post demo_store 30 (Some 1) 1 ''Eat less'' None =
          (db', Inr (RedirectResponse ''/consultant_post''))"
    and gp: "get_post db' 1 = Some post'" and ts: "p_timestamp post' = 30"
    and fr: "distinct (map p_id (posts demo_store)) \<and>
            (\<forall>p\<in>set (posts demo_store). p_id p \<noteq> 1 \<longrightarrow> p_timestamp p < 30) \<and>
            post' \<in> set (map fr_post (consultants_page db' None None))
            \<longrightarrow> fr_post (hd (consultants_page db' None None)) = post'"
    and ind: "edit_post (with_timestamp demo_store 1 5) 30 (Some 1) 1 ''Eat less'' None =
          (db', Inr (RedirectResponse ''/consultant_post''))"
    by blast
  from r e have db': "db' = demo_store\<lparr>posts := [?p, posts demo_store ! 1]\<rparr>" by simp
  with gp have "post' = ?p" by (simp add: get_post_def)
  with m db' have "post' \<in> set (map fr_post (consultants_page db' None None))" by simp
  with fr h4 h5 have "fr_post (hd (consultants_page db' None None)) = post'" by blast
  moreover have "map p_timestamp (posts demo_store) = [10, 20]" by (simp add: demo_store_def)
  ultimately show ?thesis using r gp ts ind h1 h2 h3 h4 before by blast
qed

section \<open>The invariant of the toggle tables\<close>

lemma invariant_empty_store: "likes_wf empty_store \<and> followers_wf empty_store"
  by (simp add: likes_wf_def followers_wf_def empty_store_def)

lemma invariant_like_post:
  "likes_wf db \<Longrightarrow> followers_wf db \<Longrightarrow>
     likes_wf (fst (like_post db now r uid pid)) \<and> followers_wf (fst (like_post db now r uid pid))"
  using like_post_step [of db pid now r uid]
  by (cases "int64 pid") (simp_all add: followers_wf_def like_post_def Let_def split: option.splits)

lemma invariant_follow_consultant:
  "likes_wf db \<Longrightarrow> followers_wf db \<Longrightarrow>
     likes_wf (fst (follow_consultant db now r uid cid)) \<and>
     followers_wf (fst (follow_consultant db now r uid cid))"
  using follow_consultant_step [of db cid now r uid]
  by (cases "int64 cid")
    (simp_all add: likes_wf_def follow_consultant_def Let_def split: option.splits)

lemma invariant_comment_post:
  "likes_wf db \<Longrightarrow> followers_wf db \<Longrightarrow>
     likes_wf (fst (comment_post db now r uid pid text0)) \<and>
     followers_wf (fst (comment_post db now r uid pid text0))"
  by (simp add: likes_wf_def followers_wf_def comment_post_def Let_def split: option.splits)

lemma invariant_delete_post:
  "likes_wf db \<Longrightarrow> followers_wf db \<Longrightarrow>
     likes_wf (fst (delete_post db c pid)) \<and> followers_wf (fst (delete_post db c pid))"
  by (simp add: likes_wf_def followers_wf_def delete_post_def remove_upload_def Let_def
      distinct_map_filter split: option.splits)

lemma invariant_edit_post:
  "likes_wf db \<Longrightarrow> followers_wf db \<Longrightarrow>
     likes_wf (fst (edit_post db now c pid nb nm)) \<and>
     followers_wf (fst (edit_post db now c pid nb nm))"
  by (simp add: likes_wf_def followers_wf_def edit_post_def update_post_def save_upload_def
      remove_upload_def Let_def split: option.splits)

lemma invariant_consultant_post_submit:
  "likes_wf db \<Longrightarrow> followers_wf db \<Longrightarrow>
     likes_wf (fst (consultant_post_submit db now c content0 media)) \<and>
     followers_wf (fst (consultant_post_submit db now c content0 media))"
  by (simp add: likes_wf_def followers_wf_def consultant_post_submit_def save_upload_def
      Let_def split: option.splits)

lemma invariant_register_user:
  "likes_wf db \<Longrightarrow> followers_wf db \<Longrightarrow>
     likes_wf (fst (register_user H db e p)) \<and> followers_wf (fst (register_user H db e p))"
  by (simp add: likes_wf_def followers_wf_def register_user_def Let_def split: option.splits)

end
